theory Spec2Isabelle
  imports Main
begin

section \<open>The external collaborators\<close>

text \<open>
  The SQL parser is not part of the repository: \<^verbatim>\<open>Parser::ParseQuery\<close> and
  \<^verbatim>\<open>SQLStatement::ToString\<close> belong to the host engine. Every function below
  therefore takes them as the parameters \<open>ParseQuery\<close> and \<open>ToString\<close>. A call of
  \<^verbatim>\<open>ParseQuery\<close> either fills \<^verbatim>\<open>parser.statements\<close>, a vector of owning
  pointers (an entry may be null, hence \<open>'stmt option\<close>), or throws. The source
  catches \<^verbatim>\<open>ParserException\<close> only, so the model keeps every other exception
  apart. \<^verbatim>\<open>ToString\<close> is taken to return normally on every statement.
\<close>

datatype exception = ParserException string | OtherException string

type_synonym 'stmt parser = "string \<Rightarrow> exception + 'stmt option list"

section \<open>parse\_statements.hpp\<close>

record StatementResult =
  statement :: string

section \<open>parse\_statements.cpp\<close>

subsection \<open>ExtractStatementsFromSQL\<close>

text \<open>
  The loop of lines 53 to 59: the statements are visited in order, a null entry is
  passed over, and the text of any other entry is pushed to the back of \<open>results\<close>.
\<close>

fun push_statements ::
  "('stmt \<Rightarrow> string) \<Rightarrow> 'stmt option list \<Rightarrow> StatementResult list \<Rightarrow> StatementResult list" where
  "push_statements ToString [] results = results"
| "push_statements ToString (None # statements) results =
     push_statements ToString statements results"
| "push_statements ToString (Some stmt # statements) results =
     push_statements ToString statements (results @ [\<lparr>statement = ToString stmt\<rparr>])"

text \<open>
  \<open>results\<close> is the vector passed by reference; the value returned is that vector
  after the call. \<open>Inl\<close> is an exception that leaves the function.
\<close>

definition ExtractStatementsFromSQL ::
  "'stmt parser \<Rightarrow> ('stmt \<Rightarrow> string) \<Rightarrow> string \<Rightarrow> StatementResult list
     \<Rightarrow> exception + StatementResult list" where
  "ExtractStatementsFromSQL ParseQuery ToString sql results =
     (case ParseQuery sql of
        Inl (ParserException ex) \<Rightarrow> Inr results
      | Inl (OtherException ex) \<Rightarrow> Inl (OtherException ex)
      | Inr statements \<Rightarrow> Inr (push_statements ToString statements results))"

subsection \<open>The table function\<close>

record ParseStatementsState =
  row :: nat
  results :: "StatementResult list"

record ParseStatementsBindData =
  sql :: string

definition ParseStatementsBind :: "string \<Rightarrow> ParseStatementsBindData" where
  "ParseStatementsBind sql_input = \<lparr>sql = sql_input\<rparr>"

definition ParseStatementsInit :: ParseStatementsState where
  "ParseStatementsInit = \<lparr>row = 0, results = []\<rparr>"

text \<open>The condition of line 68, under which a pull runs the extraction.\<close>

definition extraction_due :: "ParseStatementsState \<Rightarrow> bool" where
  "extraction_due state \<longleftrightarrow> results state = [] \<and> row state = 0"

text \<open>
  One pull. The output chunk arrives with cardinality 0: \<open>None\<close> is the chunk left
  that way (the end of the sequence), \<open>Some s\<close> is the chunk holding the one row \<open>s\<close>.
\<close>

definition ParseStatementsFunction ::
  "'stmt parser \<Rightarrow> ('stmt \<Rightarrow> string) \<Rightarrow> ParseStatementsBindData \<Rightarrow> ParseStatementsState
     \<Rightarrow> exception + (ParseStatementsState \<times> string option)" where
  "ParseStatementsFunction ParseQuery ToString bind_data state =
     (case (if extraction_due state
            then ExtractStatementsFromSQL ParseQuery ToString (sql bind_data) (results state)
            else Inr (results state)) of
        Inl ex \<Rightarrow> Inl ex
      | Inr rs \<Rightarrow>
          let state1 = state\<lparr>results := rs\<rparr> in
          if row state1 \<ge> length (results state1) then Inr (state1, None)
          else Inr (state1\<lparr>row := row state1 + 1\<rparr>,
                    Some (statement (results state1 ! row state1))))"

text \<open>\<open>n\<close> successive pulls on one request, with the chunk of each pull.\<close>

fun pulls ::
  "'stmt parser \<Rightarrow> ('stmt \<Rightarrow> string) \<Rightarrow> ParseStatementsBindData \<Rightarrow> nat \<Rightarrow> ParseStatementsState
     \<Rightarrow> exception + (ParseStatementsState \<times> string option list)" where
  "pulls ParseQuery ToString bind_data 0 state = Inr (state, [])"
| "pulls ParseQuery ToString bind_data (Suc n) state =
     (case ParseStatementsFunction ParseQuery ToString bind_data state of
        Inl ex \<Rightarrow> Inl ex
      | Inr (state', chunk) \<Rightarrow>
          (case pulls ParseQuery ToString bind_data n state' of
             Inl ex \<Rightarrow> Inl ex
           | Inr (state'', chunks) \<Rightarrow> Inr (state'', chunk # chunks)))"

text \<open>
  How many of the first \<open>n\<close> pulls enter the branch of lines 68 to 70, that is, call
  \<^verbatim>\<open>ExtractStatementsFromSQL\<close>. A pull that throws ends the request.
\<close>

fun extractions ::
  "'stmt parser \<Rightarrow> ('stmt \<Rightarrow> string) \<Rightarrow> ParseStatementsBindData \<Rightarrow> nat \<Rightarrow> ParseStatementsState
     \<Rightarrow> nat" where
  "extractions ParseQuery ToString bind_data 0 state = 0"
| "extractions ParseQuery ToString bind_data (Suc n) state =
     (if extraction_due state then 1 else 0) +
     (case ParseStatementsFunction ParseQuery ToString bind_data state of
        Inl ex \<Rightarrow> 0
      | Inr (state', chunk) \<Rightarrow> extractions ParseQuery ToString bind_data n state')"

subsection \<open>The scalar functions\<close>

text \<open>
  \<^verbatim>\<open>list_entry_t\<close> is the host's (offset, length) pair locating one row's list in
  the child vector of a list vector. \<^verbatim>\<open>idx_t\<close> is an unsigned 64-bit count of
  elements held in memory; the counts added below are far from \<open>2 ^ 64\<close>, and
  the model counts in \<open>nat\<close>.
\<close>

record list_entry_t =
  offset :: nat
  length' :: nat

text \<open>
  The list buffer of the result vector: \<open>child\<close> is the data array of the child
  vector, as long as the capacity, and \<open>list_size\<close> is the number of its slots in use.
\<close>

record ListVector =
  list_size :: nat
  child :: "string list"

definition ListVector_GetListSize :: "ListVector \<Rightarrow> nat" where
  "ListVector_GetListSize v = list_size v"

definition ListVector_GetListCapacity :: "ListVector \<Rightarrow> nat" where
  "ListVector_GetListCapacity v = length (child v)"

definition ListVector_SetListSize :: "ListVector \<Rightarrow> nat \<Rightarrow> ListVector" where
  "ListVector_SetListSize v n = v\<lparr>list_size := n\<rparr>"

text \<open>
  \<^verbatim>\<open>ListVector::Reserve\<close> is the host's: it leaves the child vector with room for
  at least \<open>required\<close> slots and keeps the slots it had. How far beyond \<open>required\<close> the
  host grows is the parameter \<open>grow\<close>; the new slots hold empty strings.
\<close>

definition ListVector_Reserve :: "(nat \<Rightarrow> nat) \<Rightarrow> ListVector \<Rightarrow> nat \<Rightarrow> ListVector" where
  "ListVector_Reserve grow v required =
     (if length (child v) < required
      then v\<lparr>child := child v @ replicate (max required (grow required) - length (child v)) []\<rparr>
      else v)"

text \<open>The list a row holds: the slots of the child vector its entry points to.\<close>

definition list_value :: "ListVector \<Rightarrow> list_entry_t \<Rightarrow> string list" where
  "list_value v e = take (length' e) (drop (offset e) (child v))"

text \<open>
  \<^verbatim>\<open>UnaryExecutor::Execute\<close> is the host's: it visits the rows of the batch in
  order, leaves a NULL row NULL without calling the function, and stores what the
  function returns for every other row. The function may change the vector \<open>v\<close> it
  captured; an exception ends the batch.
\<close>

fun UnaryExecutor_Execute ::
  "('v \<Rightarrow> 'a \<Rightarrow> exception + ('v \<times> 'b)) \<Rightarrow> 'a option list \<Rightarrow> 'v
     \<Rightarrow> exception + ('v \<times> 'b option list)" where
  "UnaryExecutor_Execute f [] v = Inr (v, [])"
| "UnaryExecutor_Execute f (None # args) v =
     (case UnaryExecutor_Execute f args v of
        Inl ex \<Rightarrow> Inl ex
      | Inr (v', out) \<Rightarrow> Inr (v', None # out))"
| "UnaryExecutor_Execute f (Some a # args) v =
     (case f v a of
        Inl ex \<Rightarrow> Inl ex
      | Inr (v1, y) \<Rightarrow>
          (case UnaryExecutor_Execute f args v1 of
             Inl ex \<Rightarrow> Inl ex
           | Inr (v', out) \<Rightarrow> Inr (v', Some y # out)))"

text \<open>The function of lines 85 to 111, applied to one row; \<open>result\<close> is captured by reference.\<close>

definition parse_statements_row ::
  "'stmt parser \<Rightarrow> ('stmt \<Rightarrow> string) \<Rightarrow> (nat \<Rightarrow> nat) \<Rightarrow> ListVector \<Rightarrow> string
     \<Rightarrow> exception + (ListVector \<times> list_entry_t)" where
  "parse_statements_row ParseQuery ToString grow result query =
     (case ExtractStatementsFromSQL ParseQuery ToString query [] of
        Inl ex \<Rightarrow> Inl ex
      | Inr parsed_statements \<Rightarrow>
          let current_size = ListVector_GetListSize result;
              number_of_statements = length parsed_statements;
              new_size = current_size + number_of_statements;
              result1 = (if ListVector_GetListCapacity result < new_size
                         then ListVector_Reserve grow result new_size else result);
              result2 = result1\<lparr>child :=
                          fold (\<lambda>i statements.
                                  statements[current_size + i := statement (parsed_statements ! i)])
                               [0..<length parsed_statements] (child result1)\<rparr>
          in Inr (ListVector_SetListSize result2 new_size,
                  \<lparr>offset = current_size, length' = number_of_statements\<rparr>))"

definition ParseStatementsScalarFunction ::
  "'stmt parser \<Rightarrow> ('stmt \<Rightarrow> string) \<Rightarrow> (nat \<Rightarrow> nat) \<Rightarrow> string option list \<Rightarrow> ListVector
     \<Rightarrow> exception + (ListVector \<times> list_entry_t option list)" where
  "ParseStatementsScalarFunction ParseQuery ToString grow args result =
     UnaryExecutor_Execute (parse_statements_row ParseQuery ToString grow) args result"

text \<open>
  The function of lines 116 to 123. The size of a vector of \<^verbatim>\<open>StatementResult\<close>
  is below \<open>2 ^ 63\<close> (every element takes room in a 64-bit address space), so the cast
  to \<^verbatim>\<open>int64_t\<close> keeps the value.
\<close>

definition num_statements_row ::
  "'stmt parser \<Rightarrow> ('stmt \<Rightarrow> string) \<Rightarrow> string \<Rightarrow> exception + int" where
  "num_statements_row ParseQuery ToString query =
     (case ExtractStatementsFromSQL ParseQuery ToString query [] of
        Inl ex \<Rightarrow> Inl ex
      | Inr parsed_statements \<Rightarrow> Inr (int (length parsed_statements)))"

definition NumStatementsScalarFunction ::
  "'stmt parser \<Rightarrow> ('stmt \<Rightarrow> string) \<Rightarrow> string option list \<Rightarrow> exception + int option list" where
  "NumStatementsScalarFunction ParseQuery ToString args =
     (case UnaryExecutor_Execute
             (\<lambda>u query. case num_statements_row ParseQuery ToString query of
                           Inl ex \<Rightarrow> Inl ex | Inr n \<Rightarrow> Inr (u, n)) args () of
        Inl ex \<Rightarrow> Inl ex
      | Inr (u, out) \<Rightarrow> Inr out)"

text \<open>The number of statements a row of a batch contributes: none for a NULL row.\<close>

definition statement_count :: "'stmt parser \<Rightarrow> ('stmt \<Rightarrow> string) \<Rightarrow> string option \<Rightarrow> nat" where
  "statement_count ParseQuery ToString arg =
     (case arg of
        None \<Rightarrow> 0
      | Some query \<Rightarrow>
          (case ExtractStatementsFromSQL ParseQuery ToString query [] of
             Inl ex \<Rightarrow> 0 | Inr parsed_statements \<Rightarrow> length parsed_statements))"

section \<open>The other extractors\<close>

text \<open>
  Modelled from the spec: the orchestration of section 4.5 for the table, predicate and
  function extractors. Their sources (parse\_tables.cpp, parse\_where.cpp and
  parse\_functions.cpp) are not among the sources; only their registration is.
  The facade ``orchestrates calls 4.1--4.4'', ``per statement, aggregates results'', and
  by section 7 a syntax error is ``caught at the Statement Splitter boundary'', which
  ``must apply uniformly across the Splitter and every downstream extractor that is fed
  its output''. So the text goes through the Statement Splitter, which is
  \<open>ExtractStatementsFromSQL\<close> above; the extractor is applied to each statement the
  Splitter returns, in order; and the records are collected. The extractor of one
  statement (tables, coarse or detailed predicates, function calls) is the parameter
  \<open>extractor\<close>.
\<close>

definition extraction_facade ::
  "'stmt parser \<Rightarrow> ('stmt \<Rightarrow> string) \<Rightarrow> (StatementResult \<Rightarrow> 'r list) \<Rightarrow> string
     \<Rightarrow> exception + 'r list" where
  "extraction_facade ParseQuery ToString extractor query =
     (case ExtractStatementsFromSQL ParseQuery ToString query [] of
        Inl ex \<Rightarrow> Inl ex
      | Inr statements \<Rightarrow> Inr (concat (map extractor statements)))"

section \<open>Sample parsers\<close>

text \<open>
  The theorems below hold for every parser. To run the functions on concrete texts, a
  parser is fixed by a small table: three texts with the statements the host's parser
  gives for them, a statement being represented by its canonical text, and every other
  text rejected with a syntax error (the only other text used below is
  \<^verbatim>\<open>SELEC * FRM;\<close>, which the host rejects). The second table puts a null entry
  between two statements.
\<close>

definition sample_ParseQuery :: "string parser" where
  "sample_ParseQuery q =
     (if q = ''SELECT 1; SELECT 2;'' then Inr [Some ''SELECT 1'', Some ''SELECT 2'']
      else if q = ''select  1'' then Inr [Some ''SELECT 1'']
      else if q = [] then Inr []
      else Inl (ParserException ''syntax error''))"

definition sample_ToString :: "string \<Rightarrow> string" where
  "sample_ToString stmt = stmt"

definition sample_ParseQuery_null :: "string parser" where
  "sample_ParseQuery_null q = Inr [Some ''SELECT 1'', None, Some ''SELECT 2'']"

section \<open>The scan of the table function\<close>

text \<open>The number of rows a state still has to give; it bounds the scan below.\<close>

definition rows_left ::
  "'stmt parser \<Rightarrow> ('stmt \<Rightarrow> string) \<Rightarrow> ParseStatementsBindData \<Rightarrow> ParseStatementsState \<Rightarrow> nat" where
  "rows_left ParseQuery ToString bind_data state =
     (if extraction_due state
      then (case ExtractStatementsFromSQL ParseQuery ToString (sql bind_data) (results state) of
              Inl ex \<Rightarrow> 0 | Inr rs \<Rightarrow> Suc (length rs))
      else length (results state) - row state)"

lemma pull_decreases:
  assumes "ParseStatementsFunction P T b st = Inr (st', Some s)"
  shows "rows_left P T b st' < rows_left P T b st"
  using assms
  by (auto simp: ParseStatementsFunction_def rows_left_def extraction_due_def Let_def
           split: if_splits sum.splits)

text \<open>
  The host pulls until a chunk comes back empty; the scan is the sequence of rows it
  receives.
\<close>

function table_scan ::
  "'stmt parser \<Rightarrow> ('stmt \<Rightarrow> string) \<Rightarrow> ParseStatementsBindData \<Rightarrow> ParseStatementsState
     \<Rightarrow> exception + string list" where
  "table_scan ParseQuery ToString bind_data state =
     (case ParseStatementsFunction ParseQuery ToString bind_data state of
        Inl ex \<Rightarrow> Inl ex
      | Inr (state', None) \<Rightarrow> Inr []
      | Inr (state', Some s) \<Rightarrow>
          (case table_scan ParseQuery ToString bind_data state' of
             Inl ex \<Rightarrow> Inl ex
           | Inr rows \<Rightarrow> Inr (s # rows)))"
  by pat_completeness auto
termination
  by (relation "measure (\<lambda>(P, T, b, st). rows_left P T b st)") (auto intro: pull_decreases)

declare table_scan.simps [simp del]

section \<open>Properties of the extraction\<close>

lemma push_statements_append:
  "push_statements T ss rs = rs @ [\<lparr>statement = T stmt\<rparr>. Some stmt \<leftarrow> ss]"
  by (induction T ss rs rule: push_statements.induct) simp_all

lemma Extract_syntax_error:
  "P q = Inl (ParserException m) \<Longrightarrow> ExtractStatementsFromSQL P T q rs = Inr rs"
  by (simp add: ExtractStatementsFromSQL_def)

lemma Extract_parsed:
  "P q = Inr ss \<Longrightarrow>
   ExtractStatementsFromSQL P T q rs = Inr (rs @ [\<lparr>statement = T stmt\<rparr>. Some stmt \<leftarrow> ss])"
  by (simp add: ExtractStatementsFromSQL_def push_statements_append)

text \<open>On a text the parser accepts, the facade gives the records of each statement in turn.\<close>

lemma extraction_facade_parsed:
  "P q = Inr ss \<Longrightarrow>
   extraction_facade P T extractor q =
     Inr (concat (map extractor [\<lparr>statement = T stmt\<rparr>. Some stmt \<leftarrow> ss]))"
  by (simp add: extraction_facade_def Extract_parsed)

text \<open>
  Whether the text of a record parses again is a matter of the host's parser and printer
  alone. What the extraction adds is that every record holds the text of a statement
  the parser produced, so a round-trip law of the host carries over to the records.
\<close>

lemma reparse_relative_to_parser:
  assumes roundtrip: "\<And>q' ss stmt. P q' = Inr ss \<Longrightarrow> Some stmt \<in> set ss \<Longrightarrow>
                        \<exists>stmt'. P (T stmt) = Inr [Some stmt']"
      and run: "ExtractStatementsFromSQL P T q [] = Inr rs" and r: "r \<in> set rs"
  shows "\<exists>stmt'. P (statement r) = Inr [Some stmt']"
proof (cases "P q")
  case (Inl ex)
  with run r show ?thesis
    by (cases ex) (simp_all add: ExtractStatementsFromSQL_def)
next
  case (Inr ss)
  from Extract_parsed [of P q ss T "[]", OF Inr] run r
  obtain stmt where "Some stmt \<in> set ss" "statement r = T stmt"
    by (auto split: option.splits)
  with roundtrip [OF Inr] show ?thesis by simp
qed

section \<open>Properties of the table function\<close>

lemma pull_nothing:
  "ExtractStatementsFromSQL P T q [] = Inr [] \<Longrightarrow>
   ParseStatementsFunction P T (ParseStatementsBind q) ParseStatementsInit =
     Inr (ParseStatementsInit, None)"
  by (simp add: ParseStatementsFunction_def ParseStatementsBind_def ParseStatementsInit_def
      extraction_due_def)

lemma pulls_nothing:
  "ExtractStatementsFromSQL P T q [] = Inr [] \<Longrightarrow>
   pulls P T (ParseStatementsBind q) n ParseStatementsInit =
     Inr (ParseStatementsInit, replicate n None)"
  by (induction n) (simp_all add: pull_nothing)

lemma extractions_nothing:
  "ExtractStatementsFromSQL P T q [] = Inr [] \<Longrightarrow>
   extractions P T (ParseStatementsBind q) n ParseStatementsInit = n"
  by (induction n) (simp_all add: pull_nothing, simp add: extraction_due_def ParseStatementsInit_def)

lemma extractions_memoized:
  "results st \<noteq> [] \<Longrightarrow> extractions P T b n st = 0"
  by (induction n arbitrary: st)
     (auto simp: ParseStatementsFunction_def extraction_due_def Let_def split: sum.splits)

lemma extractions_once:
  assumes "ExtractStatementsFromSQL P T q [] = Inr rs" and "rs \<noteq> []"
  shows "extractions P T (ParseStatementsBind q) (Suc n) ParseStatementsInit = 1"
  using assms
  by (simp add: ParseStatementsFunction_def ParseStatementsBind_def ParseStatementsInit_def
      extraction_due_def extractions_memoized)

text \<open>
  The host stops at the first empty chunk: a request of \<open>k\<close> rows is pulled \<open>k + 1\<close>
  times, and over these pulls the extraction runs once.
\<close>

lemma extractions_until_end:
  assumes "ExtractStatementsFromSQL P T q [] = Inr rs"
  shows "extractions P T (ParseStatementsBind q) (Suc (length rs)) ParseStatementsInit = 1"
proof (cases "rs = []")
  case True
  with assms extractions_nothing [of P T q "Suc 0"] show ?thesis by simp
next
  case False
  with assms show ?thesis by (rule extractions_once)
qed

lemma scan_rest:
  "\<not> extraction_due st \<Longrightarrow> row st \<le> length (results st) \<Longrightarrow>
   table_scan P T b st = Inr (map statement (drop (row st) (results st)))"
proof (induction "length (results st) - row st" arbitrary: st)
  case 0
  then show ?case
    by (subst table_scan.simps) (simp add: ParseStatementsFunction_def)
next
  case (Suc k)
  let ?st' = "st\<lparr>row := row st + 1\<rparr>"
  from Suc.hyps(2) have lt: "row st < length (results st)" by simp
  have pull: "ParseStatementsFunction P T b st = Inr (?st', Some (statement (results st ! row st)))"
    using Suc.prems(1) lt by (simp add: ParseStatementsFunction_def)
  have "table_scan P T b ?st' = Inr (map statement (drop (row ?st') (results ?st')))"
    using Suc.hyps(2) lt by (intro Suc.hyps(1)) (simp_all add: extraction_due_def)
  then show ?case
    using lt by (subst table_scan.simps) (simp add: pull Cons_nth_drop_Suc [symmetric])
qed

lemma scan_all:
  "table_scan P T (ParseStatementsBind q) ParseStatementsInit =
     (case ExtractStatementsFromSQL P T q [] of
        Inl ex \<Rightarrow> Inl ex | Inr rs \<Rightarrow> Inr (map statement rs))"
proof (cases "ExtractStatementsFromSQL P T q []")
  case (Inl ex)
  then show ?thesis
    by (subst table_scan.simps)
       (simp add: ParseStatementsFunction_def ParseStatementsBind_def ParseStatementsInit_def
          extraction_due_def)
next
  case (Inr rs)
  show ?thesis
  proof (cases rs)
    case Nil
    with Inr show ?thesis
      by (subst table_scan.simps) (simp add: pull_nothing)
  next
    case (Cons r rs')
    let ?st = "\<lparr>row = 1, results = rs\<rparr>"
    have pull: "ParseStatementsFunction P T (ParseStatementsBind q) ParseStatementsInit =
                  Inr (?st, Some (statement r))"
      using Inr Cons
      by (simp add: ParseStatementsFunction_def ParseStatementsBind_def ParseStatementsInit_def
          extraction_due_def)
    have "table_scan P T (ParseStatementsBind q) ?st = Inr (map statement (drop (row ?st) (results ?st)))"
      using Cons by (intro scan_rest) (simp_all add: extraction_due_def)
    then show ?thesis
      using Inr Cons by (subst table_scan.simps) (simp add: pull)
  qed
qed

section \<open>Properties of the scalar functions\<close>

text \<open>The loop of lines 102 to 105 fills the slots from \<open>cs\<close> on and leaves the others.\<close>

lemma write_slots:
  "cs + length ps \<le> length ch \<Longrightarrow> k \<le> length ps \<Longrightarrow>
   fold (\<lambda>i c. c[cs + i := statement (ps ! i)]) [0..<k] ch =
     take cs ch @ map statement (take k ps) @ drop (cs + k) ch"
proof (induction k)
  case 0
  then show ?case by simp
next
  case (Suc k)
  then have k: "k < length ps" and len: "cs + k < length ch" by simp_all
  have "(take cs ch @ map statement (take k ps) @ drop (cs + k) ch)[cs + k := statement (ps ! k)] =
        take cs ch @ map statement (take k ps) @ (drop (cs + k) ch)[0 := statement (ps ! k)]"
    using k len by (simp add: list_update_append)
  also have "(drop (cs + k) ch)[0 := statement (ps ! k)] = statement (ps ! k) # drop (cs + Suc k) ch"
    using len by (simp add: Cons_nth_drop_Suc [symmetric])
  finally show ?case
    using Suc k by (simp add: take_Suc_conv_app_nth)
qed

lemma parse_statements_row_Inl:
  "ExtractStatementsFromSQL P T q [] = Inl ex \<Longrightarrow> parse_statements_row P T grow v q = Inl ex"
  by (simp add: parse_statements_row_def)

lemma parse_statements_row_Inr:
  assumes "ExtractStatementsFromSQL P T q [] = Inr ps"
  shows "\<exists>v'. parse_statements_row P T grow v q =
                 Inr (v', \<lparr>offset = list_size v, length' = length ps\<rparr>) \<and>
              list_size v' = list_size v + length ps \<and>
              list_size v' \<le> length (child v') \<and>
              take (length ps) (drop (list_size v) (child v')) = map statement ps \<and>
              (list_size v \<le> length (child v) \<longrightarrow>
                 take (list_size v) (child v') = take (list_size v) (child v))"
proof -
  define v1 where "v1 = (if ListVector_GetListCapacity v < list_size v + length ps
                         then ListVector_Reserve grow v (list_size v + length ps) else v)"
  have room: "list_size v + length ps \<le> length (child v1)"
    by (simp add: v1_def ListVector_GetListCapacity_def ListVector_Reserve_def)
  have keep: "list_size v \<le> length (child v) \<Longrightarrow> take (list_size v) (child v1) = take (list_size v) (child v)"
    by (simp add: v1_def ListVector_GetListCapacity_def ListVector_Reserve_def)
  have sz: "list_size v1 = list_size v"
    by (simp add: v1_def ListVector_Reserve_def)
  have w: "fold (\<lambda>i c. c[list_size v + i := statement (ps ! i)]) [0..<length ps] (child v1) =
           take (list_size v) (child v1) @ map statement ps @ drop (list_size v + length ps) (child v1)"
    using write_slots [OF room, of "length ps"] by simp
  show ?thesis
    using assms room keep
    by (simp add: parse_statements_row_def Let_def ListVector_GetListSize_def
        ListVector_SetListSize_def v1_def [symmetric] w sz)
qed

lemma row_cases:
  obtains ex where "ExtractStatementsFromSQL P T q [] = Inl ex"
      and "parse_statements_row P T grow v q = Inl ex"
  | ps v' where "ExtractStatementsFromSQL P T q [] = Inr ps"
      and "parse_statements_row P T grow v q = Inr (v', \<lparr>offset = list_size v, length' = length ps\<rparr>)"
      and "list_size v' = list_size v + length ps"
      and "list_size v' \<le> length (child v')"
      and "take (length ps) (drop (list_size v) (child v')) = map statement ps"
      and "list_size v \<le> length (child v) \<Longrightarrow> take (list_size v) (child v') = take (list_size v) (child v)"
proof (cases "ExtractStatementsFromSQL P T q []")
  case (Inl ex)
  then show ?thesis using that(1) parse_statements_row_Inl by blast
next
  case (Inr ps)
  from parse_statements_row_Inr [OF this, of grow v] show ?thesis
    using that(2) Inr by blast
qed

lemma Execute_append:
  "UnaryExecutor_Execute f (xs @ ys) v =
     (case UnaryExecutor_Execute f xs v of
        Inl ex \<Rightarrow> Inl ex
      | Inr (v1, out1) \<Rightarrow>
          (case UnaryExecutor_Execute f ys v1 of
             Inl ex \<Rightarrow> Inl ex
           | Inr (v2, out2) \<Rightarrow> Inr (v2, out1 @ out2)))"
  by (induction f xs v rule: UnaryExecutor_Execute.induct)
     (auto split: sum.splits prod.splits)

lemma Execute_length:
  "UnaryExecutor_Execute f xs v = Inr (v', out) \<Longrightarrow> length out = length xs"
  by (induction f xs v arbitrary: v' out rule: UnaryExecutor_Execute.induct)
     (auto split: sum.splits prod.splits)

text \<open>A batch started on a vector whose size is within its capacity keeps what is in use.\<close>

lemma batch_keeps:
  assumes "ParseStatementsScalarFunction P T grow args v = Inr (v', es)"
      and "list_size v \<le> length (child v)"
  shows "list_size v' \<le> length (child v') \<and> list_size v \<le> list_size v' \<and>
         take (list_size v) (child v') = take (list_size v) (child v)"
  using assms unfolding ParseStatementsScalarFunction_def
proof (induction args arbitrary: v v' es)
  case Nil
  then show ?case by simp
next
  case (Cons a args)
  show ?case
  proof (cases a)
    case None
    with Cons show ?thesis by (auto split: sum.splits prod.splits)
  next
    case (Some q)
    show ?thesis
    proof (cases rule: row_cases [of P T q grow v])
      case (1 ex)
      with Cons.prems Some show ?thesis by simp
    next
      case (2 ps v1)
      from Cons.prems(1) Some 2(2) obtain es' where
        rest: "UnaryExecutor_Execute (parse_statements_row P T grow) args v1 = Inr (v', es')"
        by (auto split: sum.splits prod.splits)
      from Cons.IH [OF rest 2(4)] have
        a: "list_size v' \<le> length (child v')" and b: "list_size v1 \<le> list_size v'"
        and c: "take (list_size v1) (child v') = take (list_size v1) (child v1)" by simp_all
      have "take (list_size v) (take (list_size v1) (child v')) =
            take (list_size v) (take (list_size v1) (child v1))" using c by simp
      then have "take (list_size v) (child v') = take (list_size v) (child v1)"
        using 2(3) by (simp add: min_def)
      with a b 2(3) 2(6) [OF Cons.prems(2)] show ?thesis by simp
    qed
  qed
qed

lemma batch_size:
  assumes "ParseStatementsScalarFunction P T grow args v = Inr (v', es)"
  shows "list_size v' = list_size v + sum_list (map (statement_count P T) args)"
  using assms unfolding ParseStatementsScalarFunction_def
proof (induction args arbitrary: v v' es)
  case Nil
  then show ?case by simp
next
  case (Cons a args)
  show ?case
  proof (cases a)
    case None
    with Cons show ?thesis by (auto simp: statement_count_def split: sum.splits prod.splits)
  next
    case (Some q)
    show ?thesis
    proof (cases rule: row_cases [of P T q grow v])
      case (1 ex)
      with Cons.prems Some show ?thesis by simp
    next
      case (2 ps v1)
      from Cons.prems(1) Some 2(2) obtain es' where
        rest: "UnaryExecutor_Execute (parse_statements_row P T grow) args v1 = Inr (v', es')"
        by (auto split: sum.splits prod.splits)
      from Cons.IH [OF rest] 2(1,3) Some show ?thesis by (simp add: statement_count_def)
    qed
  qed
qed

lemma batch_row:
  assumes run: "ParseStatementsScalarFunction P T grow args v = Inr (v', es)"
      and i: "i < length args" and q: "args ! i = Some q"
  obtains vi esi ps where
        "ParseStatementsScalarFunction P T grow (take i args) v = Inr (vi, esi)"
    and "ExtractStatementsFromSQL P T q [] = Inr ps"
    and "es ! i = Some \<lparr>offset = list_size vi, length' = length ps\<rparr>"
    and "list_value v' \<lparr>offset = list_size vi, length' = length ps\<rparr> = map statement ps"
    and "list_size vi + length ps \<le> list_size v'"
proof -
  let ?f = "parse_statements_row P T grow"
  have split: "args = take i args @ (Some q # drop (Suc i) args)"
    using id_take_nth_drop [OF i] q by simp
  have "UnaryExecutor_Execute ?f (take i args @ (Some q # drop (Suc i) args)) v = Inr (v', es)"
    using run split by (simp add: ParseStatementsScalarFunction_def)
  then obtain vi esi v1 e rest where
        pre: "UnaryExecutor_Execute ?f (take i args) v = Inr (vi, esi)"
    and row: "?f vi q = Inr (v1, e)"
    and post: "UnaryExecutor_Execute ?f (drop (Suc i) args) v1 = Inr (v', rest)"
    and es: "es = esi @ Some e # rest"
    by (auto simp: Execute_append split: sum.splits prod.splits)
  have leni: "length esi = i"
    using Execute_length [OF pre] i by simp
  show ?thesis
  proof (cases rule: row_cases [of P T q grow vi])
    case (1 ex)
    with row show ?thesis by simp
  next
    case (2 ps v1')
    with row have v1: "v1' = v1" and e: "e = \<lparr>offset = list_size vi, length' = length ps\<rparr>"
      by simp_all
    have keep: "list_size v1 \<le> list_size v' \<and>
                take (list_size v1) (child v') = take (list_size v1) (child v1)"
      using batch_keeps [of P T grow "drop (Suc i) args" v1 v' rest] post 2(4) v1
      by (simp add: ParseStatementsScalarFunction_def)
    have "take (length ps) (drop (list_size vi) (child v')) =
          take (length ps) (drop (list_size vi) (take (list_size v1) (child v')))"
      using 2(3) v1 by (simp add: drop_take)
    also have "\<dots> = take (length ps) (drop (list_size vi) (take (list_size v1) (child v1)))"
      using keep by simp
    also have "\<dots> = take (length ps) (drop (list_size vi) (child v1))"
      using 2(3) v1 by (simp add: drop_take)
    also have "\<dots> = map statement ps"
      using 2(5) v1 by simp
    finally have val: "list_value v' \<lparr>offset = list_size vi, length' = length ps\<rparr> = map statement ps"
      by (simp add: list_value_def)
    show ?thesis
    proof (rule that)
      show "ParseStatementsScalarFunction P T grow (take i args) v = Inr (vi, esi)"
        using pre by (simp add: ParseStatementsScalarFunction_def)
      show "ExtractStatementsFromSQL P T q [] = Inr ps" by (rule 2(1))
      show "es ! i = Some \<lparr>offset = list_size vi, length' = length ps\<rparr>"
        using es leni e by (simp add: nth_append)
      show "list_value v' \<lparr>offset = list_size vi, length' = length ps\<rparr> = map statement ps"
        by (rule val)
      show "list_size vi + length ps \<le> list_size v'"
        using keep 2(3) v1 by simp
    qed
  qed
qed

lemma batch_null_row:
  assumes run: "ParseStatementsScalarFunction P T grow args v = Inr (v', es)"
      and i: "i < length args" and q: "args ! i = None"
  shows "es ! i = None"
proof -
  let ?f = "parse_statements_row P T grow"
  have split: "args = take i args @ (None # drop (Suc i) args)"
    using id_take_nth_drop [OF i] q by simp
  have "UnaryExecutor_Execute ?f (take i args @ (None # drop (Suc i) args)) v = Inr (v', es)"
    using run split by (simp add: ParseStatementsScalarFunction_def)
  then obtain vi esi rest where
        pre: "UnaryExecutor_Execute ?f (take i args) v = Inr (vi, esi)"
    and es: "es = esi @ None # rest"
    by (auto simp: Execute_append split: sum.splits prod.splits)
  have "length esi = i"
    using Execute_length [OF pre] i by simp
  with es show ?thesis by (simp add: nth_append)
qed

lemma num_single:
  "NumStatementsScalarFunction P T [Some q] =
     (case ExtractStatementsFromSQL P T q [] of
        Inl ex \<Rightarrow> Inl ex | Inr ps \<Rightarrow> Inr [Some (int (length ps))])"
  by (simp add: NumStatementsScalarFunction_def num_statements_row_def split: sum.splits)

lemma scalar_single:
  assumes "ExtractStatementsFromSQL P T q [] = Inr ps"
  obtains v' where
    "ParseStatementsScalarFunction P T grow [Some q] v =
       Inr (v', [Some \<lparr>offset = list_size v, length' = length ps\<rparr>])"
    and "list_value v' \<lparr>offset = list_size v, length' = length ps\<rparr> = map statement ps"
proof (cases rule: row_cases [of P T q grow v])
  case (1 ex)
  with assms show ?thesis by simp
next
  case (2 ps' v')
  with assms have "ps' = ps" by simp
  with 2 that [of v'] show ?thesis
    by (simp add: ParseStatementsScalarFunction_def list_value_def)
qed

lemma batch_entry_some:
  assumes run: "ParseStatementsScalarFunction P T grow args v = Inr (v', es)"
      and i: "i < length args" and e: "es ! i = Some e"
  obtains q where "args ! i = Some q"
  using batch_null_row [OF run i] e by (cases "args ! i") simp_all

lemma batch_length:
  "ParseStatementsScalarFunction P T grow args v = Inr (v', es) \<Longrightarrow> length es = length args"
  by (auto simp: ParseStatementsScalarFunction_def dest: Execute_length)

lemma batch_prefix:
  assumes "ParseStatementsScalarFunction P T grow args v = Inr (v', es)"
  obtains vk esk where "ParseStatementsScalarFunction P T grow (take k args) v = Inr (vk, esk)"
    and "esk = take k es"
proof -
  let ?f = "parse_statements_row P T grow"
  have "UnaryExecutor_Execute ?f args v = Inr (v', es)"
    using assms by (simp add: ParseStatementsScalarFunction_def)
  with Execute_append [of ?f "take k args" "drop k args" v]
  obtain vk esk rest where
    pre: "UnaryExecutor_Execute ?f (take k args) v = Inr (vk, esk)" and es: "es = esk @ rest"
    by (auto split: sum.splits prod.splits)
  have "length esk = length (take k args)" by (rule Execute_length [OF pre])
  moreover have "length es = length args" by (rule batch_length [OF assms])
  ultimately have "esk = take k es" using es by (auto simp: min_def split: if_splits)
  with pre that show ?thesis by (simp add: ParseStatementsScalarFunction_def)
qed

lemma batch_disjoint:
  assumes run: "ParseStatementsScalarFunction P T grow args v = Inr (v', es)"
      and ij: "i < j" and j: "j < length args"
      and ei: "es ! i = Some ei" and ej: "es ! j = Some ej"
  shows "offset ei + length' ei \<le> offset ej"
proof -
  from ij j have i: "i < length args" by simp
  obtain qj where qj: "args ! j = Some qj" by (rule batch_entry_some [OF run j ej])
  obtain qi where qi: "args ! i = Some qi" by (rule batch_entry_some [OF run i ei])
  obtain vj esj and psj :: "StatementResult list" where
    runj: "ParseStatementsScalarFunction P T grow (take j args) v = Inr (vj, esj)"
    and entj: "es ! j = Some \<lparr>offset = list_size vj, length' = length psj\<rparr>"
    by (rule batch_row [OF run j qj]) blast
  obtain vk esk where
    runj': "ParseStatementsScalarFunction P T grow (take j args) v = Inr (vk, esk)"
    and esk: "esk = take j es"
    by (rule batch_prefix [OF run])
  from runj runj' have same: "vk = vj" "esk = esj" by simp_all
  have i': "i < length (take j args)" and qi': "take j args ! i = Some qi"
    using ij j qi by simp_all
  obtain vi :: ListVector and psi :: "StatementResult list" where
    enti: "esj ! i = Some \<lparr>offset = list_size vi, length' = length psi\<rparr>"
    and le: "list_size vi + length psi \<le> list_size vj"
    by (rule batch_row [OF runj i' qi']) blast
  have "esj ! i = es ! i" using esk same ij by simp
  with enti ei have "ei = \<lparr>offset = list_size vi, length' = length psi\<rparr>" by simp
  moreover from entj ej have "ej = \<lparr>offset = list_size vj, length' = length psj\<rparr>" by simp
  ultimately show ?thesis using le by simp
qed

lemma batch_value_length:
  assumes run: "ParseStatementsScalarFunction P T grow args v = Inr (v', es)"
      and e: "Some e \<in> set es"
  shows "length (list_value v' e) = length' e"
proof -
  from e obtain i where i: "i < length es" and ei: "es ! i = Some e"
    by (auto simp: in_set_conv_nth)
  from i batch_length [OF run] have i': "i < length args" by simp
  obtain q where q: "args ! i = Some q" by (rule batch_entry_some [OF run i' ei])
  obtain vi :: ListVector and ps :: "StatementResult list" where
    "es ! i = Some \<lparr>offset = list_size vi, length' = length ps\<rparr>"
    "list_value v' \<lparr>offset = list_size vi, length' = length ps\<rparr> = map statement ps"
    by (rule batch_row [OF run i' q]) blast
  with ei show ?thesis by auto
qed

lemma num_batch:
  "(case UnaryExecutor_Execute (parse_statements_row P T grow) args v of
      Inl ex \<Rightarrow> Inl ex
    | Inr (v', es) \<Rightarrow> Inr (map (map_option (\<lambda>e. int (length' e))) es)) =
   (case UnaryExecutor_Execute
           (\<lambda>u query. case num_statements_row P T query of
                         Inl ex \<Rightarrow> Inl ex | Inr n \<Rightarrow> Inr (u, n)) args () of
      Inl ex \<Rightarrow> Inl ex
    | Inr (u, out) \<Rightarrow> Inr out)"
proof (induction args arbitrary: v)
  case Nil
  show ?case by simp
next
  case (Cons a args)
  show ?case
  proof (cases a)
    case None
    with Cons [of v] show ?thesis by (auto split: sum.splits prod.splits)
  next
    case (Some q)
    show ?thesis
    proof (cases rule: row_cases [of P T q grow v])
      case (1 ex)
      with Some show ?thesis by (simp add: num_statements_row_def)
    next
      case (2 ps v1)
      with Some Cons [of v1] show ?thesis
        by (auto simp: num_statements_row_def split: sum.splits prod.splits)
    qed
  qed
qed

text \<open>Two batches run on the first sample parser, from an empty list buffer.\<close>

lemma sample_batch:
  "ParseStatementsScalarFunction sample_ParseQuery sample_ToString (\<lambda>n. 2 * n)
     [Some ''SELECT 1; SELECT 2;'', None, Some ''select  1''] \<lparr>list_size = 0, child = []\<rparr> =
   Inr (\<lparr>list_size = 3, child = [''SELECT 1'', ''SELECT 2'', ''SELECT 1'', []]\<rparr>,
        [Some \<lparr>offset = 0, length' = 2\<rparr>, None, Some \<lparr>offset = 2, length' = 1\<rparr>])"
  by (simp add: ParseStatementsScalarFunction_def parse_statements_row_def
      ExtractStatementsFromSQL_def sample_ParseQuery_def sample_ToString_def
      ListVector_GetListSize_def ListVector_GetListCapacity_def ListVector_SetListSize_def
      ListVector_Reserve_def Let_def upt_rec numeral_2_eq_2 numeral_3_eq_3)

lemma sample_batch_repeated:
  "ParseStatementsScalarFunction sample_ParseQuery sample_ToString (\<lambda>n. 2 * n)
     [Some ''select  1'', Some ''SELECT 1; SELECT 2;'', Some ''select  1'']
     \<lparr>list_size = 0, child = []\<rparr> =
   Inr (\<lparr>list_size = 4,
          child = [''SELECT 1'', ''SELECT 1'', ''SELECT 2'', ''SELECT 1'', [], []]\<rparr>,
        [Some \<lparr>offset = 0, length' = 1\<rparr>, Some \<lparr>offset = 1, length' = 2\<rparr>,
         Some \<lparr>offset = 3, length' = 1\<rparr>])"
  by (simp add: ParseStatementsScalarFunction_def parse_statements_row_def
      ExtractStatementsFromSQL_def sample_ParseQuery_def sample_ToString_def
      ListVector_GetListSize_def ListVector_GetListCapacity_def ListVector_SetListSize_def
      ListVector_Reserve_def Let_def upt_rec numeral_2_eq_2 numeral_3_eq_3)

section \<open>The claims\<close>

text \<open>
  Claim C1. When the parser reports a syntax error on \<open>q\<close>, the extraction returns an
  empty collection and nothing is thrown: every pull of the table function returns an
  empty chunk, the scan has no rows, the scalar \<^verbatim>\<open>parse_statements\<close> gives the row an
  empty list, and \<^verbatim>\<open>num_statements\<close> gives 0. Each result is an \<open>Inr\<close>, a normal return.
  The last conjunct is the same for every other extractor, fed by the Splitter as the
  spec has it: whatever the extractor of one statement, the collection is empty.
\<close>

theorem syntax_error_gives_empty_results:
  assumes "ParseQuery q = Inl (ParserException m)"
  shows "ExtractStatementsFromSQL ParseQuery ToString q [] = Inr [] \<and>
         pulls ParseQuery ToString (ParseStatementsBind q) n ParseStatementsInit =
           Inr (ParseStatementsInit, replicate n None) \<and>
         table_scan ParseQuery ToString (ParseStatementsBind q) ParseStatementsInit = Inr [] \<and>
         (\<exists>v'. ParseStatementsScalarFunction ParseQuery ToString grow [Some q] v =
                  Inr (v', [Some \<lparr>offset = list_size v, length' = 0\<rparr>]) \<and>
               list_value v' \<lparr>offset = list_size v, length' = 0\<rparr> = []) \<and>
         NumStatementsScalarFunction ParseQuery ToString [Some q] = Inr [Some 0] \<and>
         extraction_facade ParseQuery ToString extractor q = Inr []"
proof -
  have e: "ExtractStatementsFromSQL ParseQuery ToString q [] = Inr []"
    using assms by (rule Extract_syntax_error)
  obtain v' where "ParseStatementsScalarFunction ParseQuery ToString grow [Some q] v =
                     Inr (v', [Some \<lparr>offset = list_size v, length' = length ([] :: StatementResult list)\<rparr>])"
    by (rule scalar_single [OF e])
  then have "\<exists>v'. ParseStatementsScalarFunction ParseQuery ToString grow [Some q] v =
                  Inr (v', [Some \<lparr>offset = list_size v, length' = 0\<rparr>]) \<and>
               list_value v' \<lparr>offset = list_size v, length' = 0\<rparr> = []"
    by (auto simp: list_value_def)
  then show ?thesis
    using e by (simp add: pulls_nothing scan_all num_single extraction_facade_def)
qed

theorem syntax_error_gives_empty_results_witness:
  "sample_ParseQuery ''SELEC * FRM;'' = Inl (ParserException ''syntax error'') \<and>
   ExtractStatementsFromSQL sample_ParseQuery sample_ToString ''SELEC * FRM;'' [] = Inr [] \<and>
   pulls sample_ParseQuery sample_ToString (ParseStatementsBind ''SELEC * FRM;'') 3
     ParseStatementsInit = Inr (ParseStatementsInit, [None, None, None]) \<and>
   table_scan sample_ParseQuery sample_ToString (ParseStatementsBind ''SELEC * FRM;'')
     ParseStatementsInit = Inr [] \<and>
   NumStatementsScalarFunction sample_ParseQuery sample_ToString [Some ''SELEC * FRM;''] =
     Inr [Some 0] \<and>
   extraction_facade sample_ParseQuery sample_ToString (\<lambda>r. [statement r, statement r])
     ''SELEC * FRM;'' = Inr []"
proof -
  have h: "sample_ParseQuery ''SELEC * FRM;'' = Inl (ParserException ''syntax error'')"
    by (simp add: sample_ParseQuery_def)
  show ?thesis
    using h syntax_error_gives_empty_results
      [where ParseQuery = sample_ParseQuery and ToString = sample_ToString and n = 3
         and extractor = "\<lambda>r. [statement r, statement r]", OF h]
    by (simp add: numeral_3_eq_3)
qed

text \<open>
  Claim C2. When the parser accepts \<open>q\<close>, the extraction returns one record for each
  statement of the parsed sequence, in the order of that sequence, and the record holds
  what \<open>ToString\<close> prints for the statement tree. The first conjunct covers a sequence
  with null entries, which give no record; the second is the case of a sequence
  without null entries.
\<close>

theorem one_result_per_statement:
  assumes "ParseQuery q = Inr ss"
  shows "ExtractStatementsFromSQL ParseQuery ToString q [] =
           Inr [\<lparr>statement = ToString stmt\<rparr>. Some stmt \<leftarrow> ss] \<and>
         (\<forall>stmts. ss = map Some stmts \<longrightarrow>
            ExtractStatementsFromSQL ParseQuery ToString q [] =
              Inr (map (\<lambda>stmt. \<lparr>statement = ToString stmt\<rparr>) stmts))"
proof -
  have "[\<lparr>statement = ToString stmt\<rparr>. Some stmt \<leftarrow> map Some stmts] =
        map (\<lambda>stmt. \<lparr>statement = ToString stmt\<rparr>) stmts" for stmts :: "'a list"
    by (induction stmts) simp_all
  then show ?thesis
    using Extract_parsed [of ParseQuery q ss ToString "[]", OF assms] by simp
qed

theorem one_result_per_statement_witness:
  "sample_ParseQuery ''SELECT 1; SELECT 2;'' = Inr [Some ''SELECT 1'', Some ''SELECT 2''] \<and>
   ExtractStatementsFromSQL sample_ParseQuery sample_ToString ''SELECT 1; SELECT 2;'' [] =
     Inr [\<lparr>statement = ''SELECT 1''\<rparr>, \<lparr>statement = ''SELECT 2''\<rparr>]"
proof -
  have h: "sample_ParseQuery ''SELECT 1; SELECT 2;'' = Inr [Some ''SELECT 1'', Some ''SELECT 2'']"
    by (simp add: sample_ParseQuery_def)
  show ?thesis
    using h one_result_per_statement [where ParseQuery = sample_ParseQuery and ToString = sample_ToString, OF h]
    by (simp add: sample_ToString_def)
qed

text \<open>
  Claim C9. \<open>ToString\<close> is applied to non-null entries only: the extraction returns as
  many records as the parsed sequence has non-null entries, and every record holds the
  text of one of them.
\<close>

theorem null_statements_skipped:
  assumes "ParseQuery q = Inr ss"
  shows "\<exists>rs. ExtractStatementsFromSQL ParseQuery ToString q [] = Inr rs \<and>
              length rs = length (filter (\<lambda>s. s \<noteq> None) ss) \<and>
              (\<forall>r \<in> set rs. \<exists>stmt. Some stmt \<in> set ss \<and> statement r = ToString stmt)"
proof -
  let ?rs = "[\<lparr>statement = ToString stmt\<rparr>. Some stmt \<leftarrow> ss]"
  have len: "length ?rs = length (filter (\<lambda>s. s \<noteq> None) ss)"
    by (induction ss) (auto split: option.splits)
  have mem: "\<forall>r \<in> set ?rs. \<exists>stmt. Some stmt \<in> set ss \<and> statement r = ToString stmt"
    by (auto split: option.splits)
  from Extract_parsed [of ParseQuery q ss ToString "[]", OF assms] len mem
  show ?thesis by simp
qed

theorem null_statements_skipped_witness:
  "sample_ParseQuery_null ''SELECT 1; SELECT 2;'' = Inr [Some ''SELECT 1'', None, Some ''SELECT 2''] \<and>
   (\<exists>rs. ExtractStatementsFromSQL sample_ParseQuery_null sample_ToString ''SELECT 1; SELECT 2;'' [] =
            Inr rs \<and> length rs = 2 \<and>
          (\<forall>r \<in> set rs. statement r = ''SELECT 1'' \<or> statement r = ''SELECT 2''))"
proof -
  have h: "sample_ParseQuery_null ''SELECT 1; SELECT 2;'' =
           Inr [Some ''SELECT 1'', None, Some ''SELECT 2'']"
    by (simp add: sample_ParseQuery_null_def)
  from null_statements_skipped [where ParseQuery = sample_ParseQuery_null and ToString = sample_ToString, OF h]
  obtain rs where
    "ExtractStatementsFromSQL sample_ParseQuery_null sample_ToString ''SELECT 1; SELECT 2;'' [] = Inr rs"
    "length rs = 2"
    "\<forall>r \<in> set rs. \<exists>stmt. Some stmt \<in> set [Some ''SELECT 1'', None, Some ''SELECT 2''] \<and>
        statement r = sample_ToString stmt"
    by auto
  then show ?thesis
    using h by (auto simp: sample_ToString_def)
qed

text \<open>
  Claim C4. The claim asks for one extraction per request, also when the extraction
  finds nothing. The condition of line 68 tells a request that has not extracted yet
  from one that has by the collection being empty, so a request whose extraction
  returns the empty collection extracts again at every pull: \<open>n\<close> pulls run \<open>n\<close>
  extractions. (\<open>extractions_once\<close> above is the case the condition gets right.)
\<close>

theorem empty_result_extracted_at_every_pull:
  assumes "ExtractStatementsFromSQL ParseQuery ToString q [] = Inr []"
  shows "extractions ParseQuery ToString (ParseStatementsBind q) n ParseStatementsInit = n"
  using assms by (rule extractions_nothing)

theorem empty_result_extracted_at_every_pull_witness:
  "ExtractStatementsFromSQL sample_ParseQuery sample_ToString ''SELEC * FRM;'' [] = Inr [] \<and>
   extractions sample_ParseQuery sample_ToString (ParseStatementsBind ''SELEC * FRM;'') 2
     ParseStatementsInit = 2"
proof -
  have h: "ExtractStatementsFromSQL sample_ParseQuery sample_ToString ''SELEC * FRM;'' [] = Inr []"
    by (simp add: ExtractStatementsFromSQL_def sample_ParseQuery_def)
  show ?thesis using h empty_result_extracted_at_every_pull [OF h, of 2] by simp
qed

text \<open>
  Claim C3. On every batch, \<^verbatim>\<open>num_statements\<close> returns for each row the length of
  the list \<^verbatim>\<open>parse_statements\<close> returns for that row; a NULL row is NULL in both, and
  a batch on which one of them throws makes the other throw the same exception.
\<close>

theorem num_statements_equals_list_length:
  "(case ParseStatementsScalarFunction ParseQuery ToString grow args v of
      Inl ex \<Rightarrow> Inl ex
    | Inr (v', es) \<Rightarrow> Inr (map (map_option (\<lambda>e. int (length (list_value v' e)))) es)) =
   NumStatementsScalarFunction ParseQuery ToString args"
proof (cases "ParseStatementsScalarFunction ParseQuery ToString grow args v")
  case (Inl ex)
  with num_batch [of ParseQuery ToString grow args v] show ?thesis
    by (simp add: ParseStatementsScalarFunction_def NumStatementsScalarFunction_def)
next
  case (Inr r)
  obtain v' es where r: "r = (v', es)" by (cases r)
  have m: "map (map_option (\<lambda>e. int (length (list_value v' e)))) es =
        map (map_option (\<lambda>e. int (length' e))) es"
    using batch_value_length [OF Inr [unfolded r]]
    by (intro map_cong refl option.map_cong) simp_all
  have n: "Inr (map (map_option (\<lambda>e. int (length' e))) es) =
           NumStatementsScalarFunction ParseQuery ToString args"
    using num_batch [of ParseQuery ToString grow args v] Inr r
    by (simp add: ParseStatementsScalarFunction_def NumStatementsScalarFunction_def)
  show ?thesis
    by (simp only: Inr r sum.case prod.case m n)
qed

theorem num_statements_equals_list_length_witness:
  "NumStatementsScalarFunction sample_ParseQuery sample_ToString
     [Some ''SELECT 1; SELECT 2;'', None, Some ''select  1''] = Inr [Some 2, None, Some 1]"
  using num_statements_equals_list_length [of sample_ParseQuery sample_ToString "\<lambda>n. 2 * n"
              "[Some ''SELECT 1; SELECT 2;'', None, Some ''select  1'']"
              "\<lparr>list_size = 0, child = []\<rparr>"]
  by (simp add: sample_batch list_value_def)

text \<open>
  Claim C5. The rows the table function gives for \<open>q\<close>, pulled until the empty chunk,
  are the elements of the list the scalar function gives for \<open>q\<close>, in the same order.
  The first conjunct is the batch of the single row \<open>q\<close>, with the exceptions on both
  sides; the second is a row \<open>q\<close> anywhere in a batch.
\<close>

theorem table_rows_equal_scalar_list:
  "(case ParseStatementsScalarFunction ParseQuery ToString grow [Some q] v of
      Inl ex \<Rightarrow> Inl ex
    | Inr (v', es) \<Rightarrow> Inr (map (map_option (list_value v')) es)) =
   (case table_scan ParseQuery ToString (ParseStatementsBind q) ParseStatementsInit of
      Inl ex \<Rightarrow> Inl ex
    | Inr rows \<Rightarrow> Inr [Some rows]) \<and>
   (\<forall>args v v' es i.
      ParseStatementsScalarFunction ParseQuery ToString grow args v = Inr (v', es) \<and>
      i < length args \<and> args ! i = Some q \<longrightarrow>
      (\<exists>e. es ! i = Some e \<and>
           table_scan ParseQuery ToString (ParseStatementsBind q) ParseStatementsInit =
             Inr (list_value v' e)))"
proof
  show "(case ParseStatementsScalarFunction ParseQuery ToString grow [Some q] v of
      Inl ex \<Rightarrow> Inl ex
    | Inr (v', es) \<Rightarrow> Inr (map (map_option (list_value v')) es)) =
   (case table_scan ParseQuery ToString (ParseStatementsBind q) ParseStatementsInit of
      Inl ex \<Rightarrow> Inl ex
    | Inr rows \<Rightarrow> Inr [Some rows])"
  proof (cases "ExtractStatementsFromSQL ParseQuery ToString q []")
    case (Inl ex)
    then show ?thesis
      by (simp add: scan_all ParseStatementsScalarFunction_def parse_statements_row_Inl)
  next
    case (Inr ps)
    show ?thesis
      by (rule scalar_single [OF Inr, of grow v]) (simp add: scan_all Inr)
  qed
next
  show "\<forall>args v v' es i.
      ParseStatementsScalarFunction ParseQuery ToString grow args v = Inr (v', es) \<and>
      i < length args \<and> args ! i = Some q \<longrightarrow>
      (\<exists>e. es ! i = Some e \<and>
           table_scan ParseQuery ToString (ParseStatementsBind q) ParseStatementsInit =
             Inr (list_value v' e))"
  proof (intro allI impI, elim conjE)
    fix args v v' es i
    assume run: "ParseStatementsScalarFunction ParseQuery ToString grow args v = Inr (v', es)"
      and i: "i < length args" and q: "args ! i = Some q"
    show "\<exists>e. es ! i = Some e \<and>
           table_scan ParseQuery ToString (ParseStatementsBind q) ParseStatementsInit =
             Inr (list_value v' e)"
      by (rule batch_row [OF run i q]) (simp add: scan_all)
  qed
qed

theorem table_rows_equal_scalar_list_witness:
  "table_scan sample_ParseQuery sample_ToString (ParseStatementsBind ''SELECT 1; SELECT 2;'')
     ParseStatementsInit = Inr [''SELECT 1'', ''SELECT 2'']"
proof -
  note batch = table_rows_equal_scalar_list [of sample_ParseQuery sample_ToString "\<lambda>n. 2 * n" "''SELECT 1; SELECT 2;''",
      THEN conjunct2, rule_format,
      of "[Some ''SELECT 1; SELECT 2;'', None, Some ''select  1'']" "\<lparr>list_size = 0, child = []\<rparr>"
         "\<lparr>list_size = 3, child = [''SELECT 1'', ''SELECT 2'', ''SELECT 1'', []]\<rparr>"
         "[Some \<lparr>offset = 0, length' = 2\<rparr>, None, Some \<lparr>offset = 2, length' = 1\<rparr>]" 0]
  have "\<exists>e. [Some \<lparr>offset = 0, length' = 2\<rparr>, None, Some \<lparr>offset = 2, length' = 1\<rparr>] ! 0 = Some e \<and>
          table_scan sample_ParseQuery sample_ToString (ParseStatementsBind ''SELECT 1; SELECT 2;'')
            ParseStatementsInit =
          Inr (list_value \<lparr>list_size = 3, child = [''SELECT 1'', ''SELECT 2'', ''SELECT 1'', []]\<rparr> e)"
    by (rule batch) (simp add: sample_batch)
  then show ?thesis by (auto simp: list_value_def)
qed

text \<open>
  Claim C7. What an extraction appends depends on the text alone, not on what the
  vector passed in already holds; and two rows of a batch with the same text get equal
  lists, whatever was processed between them.
\<close>

theorem extraction_is_stateless:
  "ExtractStatementsFromSQL ParseQuery ToString q rs =
     (case ExtractStatementsFromSQL ParseQuery ToString q [] of
        Inl ex \<Rightarrow> Inl ex | Inr new \<Rightarrow> Inr (rs @ new)) \<and>
   (\<forall>args v v' es i j.
      ParseStatementsScalarFunction ParseQuery ToString grow args v = Inr (v', es) \<and>
      i < length args \<and> j < length args \<and> args ! i = Some q \<and> args ! j = Some q \<longrightarrow>
      (\<exists>ei ej. es ! i = Some ei \<and> es ! j = Some ej \<and> list_value v' ei = list_value v' ej))"
proof
  show "ExtractStatementsFromSQL ParseQuery ToString q rs =
     (case ExtractStatementsFromSQL ParseQuery ToString q [] of
        Inl ex \<Rightarrow> Inl ex | Inr new \<Rightarrow> Inr (rs @ new))"
    by (simp add: ExtractStatementsFromSQL_def push_statements_append
        split: sum.splits exception.splits)
next
  show "\<forall>args v v' es i j.
      ParseStatementsScalarFunction ParseQuery ToString grow args v = Inr (v', es) \<and>
      i < length args \<and> j < length args \<and> args ! i = Some q \<and> args ! j = Some q \<longrightarrow>
      (\<exists>ei ej. es ! i = Some ei \<and> es ! j = Some ej \<and> list_value v' ei = list_value v' ej)"
  proof (intro allI impI, elim conjE)
    fix args v v' es i j
    assume run: "ParseStatementsScalarFunction ParseQuery ToString grow args v = Inr (v', es)"
      and i: "i < length args" and j: "j < length args"
      and qi: "args ! i = Some q" and qj: "args ! j = Some q"
    obtain vi :: ListVector and psi where
      "ExtractStatementsFromSQL ParseQuery ToString q [] = Inr psi"
      "es ! i = Some \<lparr>offset = list_size vi, length' = length psi\<rparr>"
      "list_value v' \<lparr>offset = list_size vi, length' = length psi\<rparr> = map statement psi"
      by (rule batch_row [OF run i qi]) blast
    moreover obtain vj :: ListVector and psj where
      "ExtractStatementsFromSQL ParseQuery ToString q [] = Inr psj"
      "es ! j = Some \<lparr>offset = list_size vj, length' = length psj\<rparr>"
      "list_value v' \<lparr>offset = list_size vj, length' = length psj\<rparr> = map statement psj"
      by (rule batch_row [OF run j qj]) blast
    ultimately show "\<exists>ei ej. es ! i = Some ei \<and> es ! j = Some ej \<and>
                       list_value v' ei = list_value v' ej"
      by simp
  qed
qed

theorem extraction_is_stateless_witness:
  "list_value \<lparr>list_size = 4,
       child = [''SELECT 1'', ''SELECT 1'', ''SELECT 2'', ''SELECT 1'', [], []]\<rparr>
     \<lparr>offset = 0, length' = 1\<rparr> =
   list_value \<lparr>list_size = 4,
       child = [''SELECT 1'', ''SELECT 1'', ''SELECT 2'', ''SELECT 1'', [], []]\<rparr>
     \<lparr>offset = 3, length' = 1\<rparr>"
proof -
  note batch = extraction_is_stateless [of sample_ParseQuery sample_ToString "''select  1''" "[]" "\<lambda>n. 2 * n",
      THEN conjunct2, rule_format,
      of "[Some ''select  1'', Some ''SELECT 1; SELECT 2;'', Some ''select  1'']"
         "\<lparr>list_size = 0, child = []\<rparr>"
         "\<lparr>list_size = 4,
            child = [''SELECT 1'', ''SELECT 1'', ''SELECT 2'', ''SELECT 1'', [], []]\<rparr>"
         "[Some \<lparr>offset = 0, length' = 1\<rparr>, Some \<lparr>offset = 1, length' = 2\<rparr>,
           Some \<lparr>offset = 3, length' = 1\<rparr>]" 0 2]
  have "\<exists>ei ej. [Some \<lparr>offset = 0, length' = 1\<rparr>, Some \<lparr>offset = 1, length' = 2\<rparr>,
                 Some \<lparr>offset = 3, length' = 1\<rparr>] ! 0 = Some ei \<and>
               [Some \<lparr>offset = 0, length' = 1\<rparr>, Some \<lparr>offset = 1, length' = 2\<rparr>,
                 Some \<lparr>offset = 3, length' = 1\<rparr>] ! 2 = Some ej \<and>
          list_value \<lparr>list_size = 4,
            child = [''SELECT 1'', ''SELECT 1'', ''SELECT 2'', ''SELECT 1'', [], []]\<rparr> ei =
          list_value \<lparr>list_size = 4,
            child = [''SELECT 1'', ''SELECT 1'', ''SELECT 2'', ''SELECT 1'', [], []]\<rparr> ej"
    by (rule batch) (simp add: sample_batch_repeated)
  then show ?thesis by auto
qed

text \<open>
  Claim C10. In a batch, the entry of a non-NULL row has as offset the size of the
  child vector after the rows before it, and as length the number of statements of the
  row; the slots it points to hold the statements of the row. Entries of distinct rows
  do not overlap, and the child vector grows by the total number of statements.
\<close>

theorem batch_entries_are_consecutive_slices:
  assumes "ParseStatementsScalarFunction ParseQuery ToString grow args v = Inr (v', es)"
  shows "length es = length args \<and>
         (\<forall>i < length args.
            case args ! i of
              None \<Rightarrow> es ! i = None
            | Some q \<Rightarrow>
                (\<exists>vi esi ps.
                   ParseStatementsScalarFunction ParseQuery ToString grow (take i args) v =
                     Inr (vi, esi) \<and>
                   ExtractStatementsFromSQL ParseQuery ToString q [] = Inr ps \<and>
                   es ! i = Some \<lparr>offset = list_size vi, length' = length ps\<rparr> \<and>
                   list_value v' \<lparr>offset = list_size vi, length' = length ps\<rparr> =
                     map statement ps)) \<and>
         (\<forall>i j ei ej. i < j \<and> j < length args \<and> es ! i = Some ei \<and> es ! j = Some ej \<longrightarrow>
            offset ei + length' ei \<le> offset ej) \<and>
         list_size v' = list_size v + sum_list (map (statement_count ParseQuery ToString) args)"
proof -
  have len: "length es = length args" by (rule batch_length [OF assms])
  have rows: "case args ! i of
              None \<Rightarrow> es ! i = None
            | Some q \<Rightarrow>
                (\<exists>vi esi ps.
                   ParseStatementsScalarFunction ParseQuery ToString grow (take i args) v =
                     Inr (vi, esi) \<and>
                   ExtractStatementsFromSQL ParseQuery ToString q [] = Inr ps \<and>
                   es ! i = Some \<lparr>offset = list_size vi, length' = length ps\<rparr> \<and>
                   list_value v' \<lparr>offset = list_size vi, length' = length ps\<rparr> =
                     map statement ps)" if i: "i < length args" for i
  proof (cases "args ! i")
    case None
    then show ?thesis using batch_null_row [OF assms i] by simp
  next
    case (Some q)
    show ?thesis
      by (rule batch_row [OF assms i Some]) (use Some in auto)
  qed
  have disj: "\<forall>i j ei ej. i < j \<and> j < length args \<and> es ! i = Some ei \<and> es ! j = Some ej \<longrightarrow>
            offset ei + length' ei \<le> offset ej"
    using batch_disjoint [OF assms] by blast
  from len rows disj batch_size [OF assms] show ?thesis by blast
qed

theorem batch_entries_are_consecutive_slices_witness:
  "ParseStatementsScalarFunction sample_ParseQuery sample_ToString (\<lambda>n. 2 * n)
     [Some ''SELECT 1; SELECT 2;'', None, Some ''select  1''] \<lparr>list_size = 0, child = []\<rparr> =
   Inr (\<lparr>list_size = 3, child = [''SELECT 1'', ''SELECT 2'', ''SELECT 1'', []]\<rparr>,
        [Some \<lparr>offset = 0, length' = 2\<rparr>, None, Some \<lparr>offset = 2, length' = 1\<rparr>]) \<and>
   sum_list (map (statement_count sample_ParseQuery sample_ToString)
     [Some ''SELECT 1; SELECT 2;'', None, Some ''select  1'']) = 3"
  using sample_batch batch_entries_are_consecutive_slices [OF sample_batch] by simp

end
